theory Spec2Isabelle
  imports Main
begin

section \<open>Go values as seen through package reflect\<close>

text \<open>
  The serializer works on \<^verbatim>\<open>interface{}\<close> values and inspects them with package
  \<^verbatim>\<open>reflect\<close>. The model keeps the part of Go's value universe that the code can
  tell apart: the kind of a value, whether a nil-capable value is nil, the fields of a struct
  (name, parsed struct tag, value) and the elements of a sequence.

  Numeric kinds other than \<^verbatim>\<open>int\<close> and \<^verbatim>\<open>uint8\<close> behave like \<^verbatim>\<open>int\<close> for
  every function below and are left out. Embedded (anonymous) struct fields, whose fields
  \<^verbatim>\<open>FieldByName\<close> would promote, are not modelled, and neither is \<^verbatim>\<open>Value.Len\<close> on
  a pointer to an array. Values are trees: the serializer only reads through pointers, and
  the filters write one level deep, so sharing between pointers plays no role.
\<close>

datatype kind =
  KInvalid | KBool | KInt | KUint8 | KArray | KChan | KFunc | KInterface | KMap | KPtr
  | KSlice | KString | KStruct

text \<open>
  \<open>NilIface\<close> is the nil \<^verbatim>\<open>interface{}\<close> value. \<open>IfaceV v\<close> is a storage location of
  interface type (a struct field or sequence element) holding the dynamic value \<open>v\<close>.
  Pointers, slices, maps, functions and channels are \<open>None\<close> when nil. A struct tag is kept as
  its list of key/value pairs in the conventional \<^verbatim>\<open>key:"value"\<close> format.

  A struct field carries its exported bit. Package reflect does not look at the spelling of
  a field name: it reads the bit that the compiler stores with the name, which is set when
  the name begins with an upper-case letter.
\<close>

datatype gval =
    NilIface
  | BoolV bool
  | IntV int
  | Uint8V nat
  | StringV string
  | PtrV "gval option"
  | StructV "sfield list"
  | SliceV "gval list option"
  | ArrayV "gval list"
  | MapV "(gval \<times> gval) list option"
  | FuncV "nat option"
  | ChanV "nat option"
  | IfaceV gval
and sfield =
    SField (fname: string) (fexported: bool) (ftag: "(string \<times> string) list") (fvalue: gval)

fun kind_of :: "gval \<Rightarrow> kind" where
  "kind_of NilIface = KInvalid"
| "kind_of (BoolV _) = KBool"
| "kind_of (IntV _) = KInt"
| "kind_of (Uint8V _) = KUint8"
| "kind_of (StringV _) = KString"
| "kind_of (PtrV _) = KPtr"
| "kind_of (StructV _) = KStruct"
| "kind_of (SliceV _) = KSlice"
| "kind_of (ArrayV _) = KArray"
| "kind_of (MapV _) = KMap"
| "kind_of (FuncV _) = KFunc"
| "kind_of (ChanV _) = KChan"
| "kind_of (IfaceV _) = KInterface"

text \<open>
  A panic is a value. \<open>PanicString\<close> is a \<^verbatim>\<open>panic("...")\<close> of the package itself,
  \<open>ValueError m k\<close> is \<^verbatim>\<open>*reflect.ValueError{Method: m, Kind: k}\<close>, \<open>ReflectPanic\<close> a
  string panic raised inside package reflect, \<open>TypeAssertionError\<close> a failed
  \<^verbatim>\<open>x.(T)\<close>, and \<open>NilDereference\<close> a call through a nil function or nil interface.
\<close>

datatype panic =
    PanicString string
  | ValueError string kind
  | ReflectPanic string
  | TypeAssertionError
  | NilDereference

text \<open>
  A \<^verbatim>\<open>reflect.Value\<close>: the zero Value, or a value together with the read-only flag that
  reflect sets on everything reached through an unexported struct field.
\<close>

datatype Value = ZeroValue | Value (flagRO: bool) (data: gval)

datatype StructField =
  StructField (Name: string) (Tag: "(string \<times> string) list") (FType: "kind option")

datatype Type = Type (TKind: kind) (TFields: "StructField list")

fun ValueOf :: "gval \<Rightarrow> Value" where
  "ValueOf NilIface = ZeroValue"
| "ValueOf (IfaceV v) = ValueOf v"
| "ValueOf v = Value False v"

fun Kind :: "Value \<Rightarrow> kind" where
  "Kind ZeroValue = KInvalid"
| "Kind (Value _ v) = kind_of v"

fun IsNil :: "Value \<Rightarrow> panic + bool" where
  "IsNil (Value _ (PtrV p)) = Inr (p = None)"
| "IsNil (Value _ (SliceV s)) = Inr (s = None)"
| "IsNil (Value _ (MapV m)) = Inr (m = None)"
| "IsNil (Value _ (FuncV f)) = Inr (f = None)"
| "IsNil (Value _ (ChanV c)) = Inr (c = None)"
| "IsNil (Value _ (IfaceV v)) = Inr (v = NilIface)"
| "IsNil v = Inl (ValueError ''reflect.Value.IsNil'' (Kind v))"

fun Elem :: "Value \<Rightarrow> panic + Value" where
  "Elem (Value ro (PtrV None)) = Inr ZeroValue"
| "Elem (Value ro (PtrV (Some v))) = Inr (Value ro v)"
| "Elem (Value ro (IfaceV v)) =
     Inr (case ValueOf v of ZeroValue \<Rightarrow> ZeroValue | Value r d \<Rightarrow> Value (r \<or> ro) d)"
| "Elem v = Inl (ValueError ''reflect.Value.Elem'' (Kind v))"

definition typeField :: "sfield \<Rightarrow> StructField" where
  "typeField f = StructField (fname f) (ftag f) (Some (kind_of (fvalue f)))"

fun TypeOf :: "Value \<Rightarrow> panic + Type" where
  "TypeOf ZeroValue = Inl (ValueError ''reflect.Value.Type'' KInvalid)"
| "TypeOf (Value _ (StructV fs)) = Inr (Type KStruct (map typeField fs))"
| "TypeOf (Value _ v) = Inr (Type (kind_of v) [])"

text \<open>\<^verbatim>\<open>Value.FieldByName\<close>: the zero Value when the struct has no such field.\<close>

fun Value_FieldByName :: "Value \<Rightarrow> string \<Rightarrow> panic + Value" where
  "Value_FieldByName (Value ro (StructV fs)) name =
     (case find (\<lambda>f. fname f = name) fs of
        None \<Rightarrow> Inr ZeroValue
      | Some f \<Rightarrow> Inr (Value (ro \<or> \<not> fexported f) (fvalue f)))"
| "Value_FieldByName v name = Inl (ValueError ''reflect.Value.FieldByName'' (Kind v))"

text \<open>
  \<^verbatim>\<open>Type.FieldByName\<close>: the zero StructField and false when there is no such field. The
  panic message for a type that is not a struct ends with the name of the type, which the
  model does not keep.
\<close>

definition Type_FieldByName :: "Type \<Rightarrow> string \<Rightarrow> panic + (StructField \<times> bool)" where
  "Type_FieldByName t name =
     (if TKind t \<noteq> KStruct then Inl (ReflectPanic ''reflect: FieldByName of non-struct type'')
      else case find (\<lambda>f. Name f = name) (TFields t) of
             None \<Rightarrow> Inr (StructField [] [] None, False)
           | Some f \<Rightarrow> Inr (f, True))"

text \<open>
  The value an interface-typed location hands out: its dynamic value. Every other value is
  handed out as it is.
\<close>

definition dynamicValue :: "gval \<Rightarrow> gval" where
  "dynamicValue d = (case d of IfaceV x \<Rightarrow> x | _ \<Rightarrow> d)"

definition Interface :: "Value \<Rightarrow> panic + gval" where
  "Interface v =
     (case v of
        ZeroValue \<Rightarrow> Inl (ValueError ''reflect.Value.Interface'' KInvalid)
      | Value ro d \<Rightarrow>
          if ro then Inl (ReflectPanic
            ''reflect.Value.Interface: cannot return value obtained from unexported field or method'')
          else Inr (dynamicValue d))"

text \<open>
  \<^verbatim>\<open>Value.Addr\<close>. Every Value the serializer takes the address of is a field of a struct
  reached through a pointer, hence addressable.
\<close>

definition Addr :: "Value \<Rightarrow> panic + Value" where
  "Addr v =
     (case v of
        ZeroValue \<Rightarrow> Inl (ValueError ''reflect.Value.Addr'' KInvalid)
      | Value ro d \<Rightarrow> Inr (Value ro (PtrV (Some d))))"

fun Len :: "Value \<Rightarrow> panic + nat" where
  "Len (Value _ (ArrayV xs)) = Inr (length xs)"
| "Len (Value _ (SliceV None)) = Inr 0"
| "Len (Value _ (SliceV (Some xs))) = Inr (length xs)"
| "Len (Value _ (StringV s)) = Inr (length s)"
| "Len (Value _ (MapV None)) = Inr 0"
| "Len (Value _ (MapV (Some kvs))) = Inr (length kvs)"
| "Len (Value _ (ChanV None)) = Inr 0"
| "Len (Value _ (ChanV (Some n))) = Inr n"
| "Len v = Inl (ValueError ''reflect.Value.Len'' (Kind v))"

definition indexList :: "bool \<Rightarrow> gval list \<Rightarrow> nat \<Rightarrow> panic + Value" where
  "indexList ro xs i =
     (if i < length xs then Inr (Value ro (xs ! i))
      else Inl (ReflectPanic ''reflect: index out of range''))"

fun Index :: "Value \<Rightarrow> nat \<Rightarrow> panic + Value" where
  "Index (Value ro (ArrayV xs)) i = indexList ro xs i"
| "Index (Value ro (SliceV None)) i = indexList ro [] i"
| "Index (Value ro (SliceV (Some xs))) i = indexList ro xs i"
| "Index (Value ro (StringV s)) i = indexList ro (map (\<lambda>c. Uint8V (of_char c)) s) i"
| "Index v i = Inl (ValueError ''reflect.Value.Index'' (Kind v))"

section \<open>The serializer\<close>

text \<open>
  The result of \<^verbatim>\<open>Serialize\<close> is a \<^verbatim>\<open>map[string]interface{}\<close>. Its values are field
  values copied from the model (\<open>Val\<close>), nested results (\<open>Obj\<close>) and
  \<^verbatim>\<open>[]interface{}\<close> containers of results (\<open>Seq\<close>).
\<close>

datatype pval =
    Val gval
  | Obj "string \<Rightarrow> pval option"
  | Seq "pval list"

text \<open>
  An element of the \<^verbatim>\<open>fields\<close> argument, by dynamic type: a \<^verbatim>\<open>string\<close>, a
  \<^verbatim>\<open>FieldSerializer\<close> (nil, or a function of the model), a
  \<^verbatim>\<open>map[string][]interface{}\<close> (its entries in the order the \<^verbatim>\<open>range\<close> loop visits
  them, which Go leaves unspecified), or a value of any other type, of which only the kind
  matters. A \<^verbatim>\<open>FieldSerializer\<close> is caller code; the model takes it to return.
\<close>

datatype entry =
    StrE string
  | FuncE "(gval \<Rightarrow> string \<times> pval) option"
  | MapE "(string \<times> entry list) list"
  | OtherE kind

definition getSerializedName :: "StructField \<Rightarrow> panic + string" where
  "getSerializedName structField =
     (case map_of (Tag structField) ''json'' of
        None \<Rightarrow> Inl (PanicString
          (''Field '' @ [CHR 0x22] @ Name structField @ [CHR 0x22] @ '' has no json tag''))
      | Some val \<Rightarrow> Inr val)"

definition serializeStrField ::
  "Value \<Rightarrow> Type \<Rightarrow> string \<Rightarrow> (string \<Rightarrow> pval option) \<Rightarrow> panic + (string \<Rightarrow> pval option)" where
  "serializeStrField structValue structType fieldName targetMap =
     (case Value_FieldByName structValue fieldName of
        Inl p \<Rightarrow> Inl p
      | Inr fieldValue \<Rightarrow>
     (case Type_FieldByName structType fieldName of
        Inl p \<Rightarrow> Inl p
      | Inr (fieldType, _) \<Rightarrow>
     (case getSerializedName fieldType of
        Inl p \<Rightarrow> Inl p
      | Inr serializedName \<Rightarrow>
     (case Interface fieldValue of
        Inl p \<Rightarrow> Inl p
      | Inr v \<Rightarrow> Inr (targetMap(serializedName \<mapsto> Val v))))))"

text \<open>
  \<open>Serialize\<close> is the function of the source; \<open>serializeFields\<close> is its loop over
  \<^verbatim>\<open>fields\<close>, \<open>serializeNested\<close> the inner loop over the entries of one nested map,
  \<open>serializeArrayField\<close> the function of that name and \<open>serializeContainer\<close> its loop over
  the indices of the sequence.
\<close>

function (sequential) Serialize :: "gval \<Rightarrow> entry list \<Rightarrow> panic + (string \<Rightarrow> pval option)"
and serializeFields ::
  "gval \<Rightarrow> Value \<Rightarrow> Type \<Rightarrow> entry list \<Rightarrow> (string \<Rightarrow> pval option)
    \<Rightarrow> panic + (string \<Rightarrow> pval option)"
and serializeNested ::
  "Value \<Rightarrow> Type \<Rightarrow> (string \<times> entry list) list \<Rightarrow> (string \<Rightarrow> pval option)
    \<Rightarrow> panic + (string \<Rightarrow> pval option)"
and serializeArrayField ::
  "Value \<Rightarrow> string \<Rightarrow> entry list \<Rightarrow> (string \<Rightarrow> pval option)
    \<Rightarrow> panic + (string \<Rightarrow> pval option)"
and serializeContainer :: "Value \<Rightarrow> entry list \<Rightarrow> nat list \<Rightarrow> panic + pval list"
where
  "Serialize model fields =
     (case IsNil (ValueOf model) of
        Inl p \<Rightarrow> Inl p
      | Inr True \<Rightarrow> Inr Map.empty
      | Inr False \<Rightarrow>
     (case Elem (ValueOf model) of
        Inl p \<Rightarrow> Inl p
      | Inr elem \<Rightarrow>
     (case TypeOf elem of
        Inl p \<Rightarrow> Inl p
      | Inr modelType \<Rightarrow> serializeFields model elem modelType fields Map.empty)))"
| "serializeFields model elem modelType [] result = Inr result"
| "serializeFields model elem modelType (StrE name # rest) result =
     (case serializeStrField elem modelType name result of
        Inl p \<Rightarrow> Inl p
      | Inr result' \<Rightarrow> serializeFields model elem modelType rest result')"
| "serializeFields model elem modelType (FuncE None # rest) result = Inl NilDereference"
| "serializeFields model elem modelType (FuncE (Some fieldSerializer) # rest) result =
     (case fieldSerializer model of
        (fieldName, v) \<Rightarrow> serializeFields model elem modelType rest (result(fieldName \<mapsto> v)))"
| "serializeFields model elem modelType (OtherE k # rest) result =
     (if k = KString then Inl TypeAssertionError
      else if k = KFunc then Inl (PanicString ''Undefined func type for serializer.'')
      else Inl TypeAssertionError)"
| "serializeFields model elem modelType (MapE kvs # rest) result =
     (case serializeNested elem modelType kvs result of
        Inl p \<Rightarrow> Inl p
      | Inr result' \<Rightarrow> serializeFields model elem modelType rest result')"
| "serializeNested elem modelType [] result = Inr result"
| "serializeNested elem modelType ((fieldNameStr, mapFields) # more) result =
     (case Type_FieldByName modelType fieldNameStr of
        Inl p \<Rightarrow> Inl p
      | Inr (fieldType, _) \<Rightarrow>
     (case getSerializedName fieldType of
        Inl p \<Rightarrow> Inl p
      | Inr serializedName \<Rightarrow>
     (case Value_FieldByName elem fieldNameStr of
        Inl p \<Rightarrow> Inl p
      | Inr fieldValue \<Rightarrow>
     (case
        (case FType fieldType of
           None \<Rightarrow> Inl NilDereference
         | Some k \<Rightarrow>
             if k = KSlice then serializeArrayField fieldValue serializedName mapFields result
             else if k = KArray then serializeArrayField fieldValue serializedName mapFields result
             else if k = KPtr then
               (case Interface fieldValue of
                  Inl p \<Rightarrow> Inl p
                | Inr m \<Rightarrow>
               (case Serialize m mapFields of
                  Inl p \<Rightarrow> Inl p
                | Inr r \<Rightarrow> Inr (result(serializedName \<mapsto> Obj r))))
             else if k = KStruct then
               (case Addr fieldValue of
                  Inl p \<Rightarrow> Inl p
                | Inr a \<Rightarrow>
               (case Interface a of
                  Inl p \<Rightarrow> Inl p
                | Inr m \<Rightarrow>
               (case Serialize m mapFields of
                  Inl p \<Rightarrow> Inl p
                | Inr r \<Rightarrow> Inr (result(serializedName \<mapsto> Obj r)))))
             else Inl (PanicString ''Undefined type for serializer. Need to implement it''))
      of
        Inl p \<Rightarrow> Inl p
      | Inr result' \<Rightarrow> serializeNested elem modelType more result'))))"
| "serializeArrayField fieldValue fieldName fields targetMap =
     (case Len fieldValue of
        Inl p \<Rightarrow> Inl p
      | Inr n \<Rightarrow>
     (case serializeContainer fieldValue fields [0..<n] of
        Inl p \<Rightarrow> Inl p
      | Inr serializedContainer \<Rightarrow> Inr (targetMap(fieldName \<mapsto> Seq serializedContainer))))"
| "serializeContainer fieldValue fields [] = Inr []"
| "serializeContainer fieldValue fields (i # more) =
     (case Index fieldValue i of
        Inl p \<Rightarrow> Inl p
      | Inr e \<Rightarrow>
     (case Interface e of
        Inl p \<Rightarrow> Inl p
      | Inr elemInterface \<Rightarrow>
     (case Serialize elemInterface fields of
        Inl p \<Rightarrow> Inl p
      | Inr r \<Rightarrow>
     (case serializeContainer fieldValue fields more of
        Inl p \<Rightarrow> Inl p
      | Inr rs \<Rightarrow> Inr (Obj r # rs)))))"
  by pat_completeness auto

termination
  by (relation
    "(\<lambda>x. case x of
        Inl (Inl (model, fields)) \<Rightarrow> size_list size fields
      | Inl (Inr (model, elem, modelType, fields, result)) \<Rightarrow> size_list size fields
      | Inr (Inl (elem, modelType, kvs, result)) \<Rightarrow>
          size_list (size_prod (\<lambda>_. 0) (size_list size)) kvs
      | Inr (Inr (Inl (fieldValue, fieldName, fields, targetMap))) \<Rightarrow> size_list size fields
      | Inr (Inr (Inr (fieldValue, fields, is))) \<Rightarrow> size_list size fields) <*mlex*>
     (\<lambda>x. case x of
        Inl (Inl _) \<Rightarrow> 1
      | Inl (Inr _) \<Rightarrow> 0
      | Inr (Inl _) \<Rightarrow> 0
      | Inr (Inr (Inl _)) \<Rightarrow> 3
      | Inr (Inr (Inr _)) \<Rightarrow> (2::nat)) <*mlex*>
     (\<lambda>x. case x of
        Inr (Inr (Inr (fieldValue, fields, is))) \<Rightarrow> length is
      | _ \<Rightarrow> 0) <*mlex*> {}")
    (auto simp: wf_mlex mlex_less mlex_leq)

subsection \<open>SerializeList\<close>

fun SerializeList_loop ::
  "Value \<Rightarrow> entry list \<Rightarrow> nat list \<Rightarrow> panic + (string \<Rightarrow> pval option) list" where
  "SerializeList_loop slice fields [] = Inr []"
| "SerializeList_loop slice fields (i # more) =
     (case Index slice i of
        Inl p \<Rightarrow> Inl p
      | Inr e \<Rightarrow>
     (case Interface e of
        Inl p \<Rightarrow> Inl p
      | Inr m \<Rightarrow>
     (case Serialize m fields of
        Inl p \<Rightarrow> Inl p
      | Inr r \<Rightarrow>
     (case SerializeList_loop slice fields more of
        Inl p \<Rightarrow> Inl p
      | Inr rs \<Rightarrow> Inr (r # rs)))))"

definition SerializeList ::
  "gval \<Rightarrow> entry list \<Rightarrow> panic + (string \<Rightarrow> pval option) list" where
  "SerializeList models fields =
     (case Len (ValueOf models) of
        Inl p \<Rightarrow> Inl p
      | Inr n \<Rightarrow> SerializeList_loop (ValueOf models) fields [0..<n])"

section \<open>The filters\<close>

fun containsField :: "string \<Rightarrow> string list \<Rightarrow> bool" where
  "containsField field [] = False"
| "containsField field (v # vs) = (if field = v then True else containsField field vs)"

definition isNilInterface :: "gval \<Rightarrow> bool" where
  "isNilInterface v =
     (if v = NilIface \<or> (Kind (ValueOf v) = KPtr \<and> IsNil (ValueOf v) = Inr True)
      then True else False)"

subsection \<open>FilterFields\<close>

fun NumField :: "Value \<Rightarrow> panic + nat" where
  "NumField (Value _ (StructV fs)) = Inr (length fs)"
| "NumField v = Inl (ValueError ''reflect.Value.NumField'' (Kind v))"

fun Field :: "Value \<Rightarrow> nat \<Rightarrow> panic + Value" where
  "Field (Value ro (StructV fs)) i =
     (if i < length fs
      then Inr (Value (ro \<or> \<not> fexported (fs ! i)) (fvalue (fs ! i)))
      else Inl (ReflectPanic ''reflect: Field index out of range''))"
| "Field v i = Inl (ValueError ''reflect.Value.Field'' (Kind v))"

definition Type_Field :: "Type \<Rightarrow> nat \<Rightarrow> panic + StructField" where
  "Type_Field t i =
     (if TKind t \<noteq> KStruct then Inl (ReflectPanic ''reflect: Field of non-struct type'')
      else if i < length (TFields t) then Inr (TFields t ! i)
      else Inl (ReflectPanic ''reflect: Field index out of bounds''))"

text \<open>
  \<open>Zero v\<close> is \<^verbatim>\<open>reflect.Zero\<close> of the type of \<open>v\<close>: nil for the nil-capable kinds.
\<close>

fun Zero :: "gval \<Rightarrow> gval" and ZeroField :: "sfield \<Rightarrow> sfield" where
  "Zero NilIface = NilIface"
| "Zero (BoolV _) = BoolV False"
| "Zero (IntV _) = IntV 0"
| "Zero (Uint8V _) = Uint8V 0"
| "Zero (StringV _) = StringV []"
| "Zero (PtrV _) = PtrV None"
| "Zero (StructV fs) = StructV (map ZeroField fs)"
| "Zero (SliceV _) = SliceV None"
| "Zero (ArrayV xs) = ArrayV (map Zero xs)"
| "Zero (MapV _) = MapV None"
| "Zero (FuncV _) = FuncV None"
| "Zero (ChanV _) = ChanV None"
| "Zero (IfaceV _) = IfaceV NilIface"
| "ZeroField (SField n e t v) = SField n e t (Zero v)"

text \<open>
  \<^verbatim>\<open>Value.Set\<close> on an addressable Value: the new content of the location, or the panic
  for a Value reached through an unexported field.
\<close>

definition Set :: "Value \<Rightarrow> gval \<Rightarrow> panic + gval" where
  "Set v x =
     (case v of
        ZeroValue \<Rightarrow> Inl (ValueError ''reflect.Value.Set'' KInvalid)
      | Value ro d \<Rightarrow>
          if ro then Inl (ReflectPanic
            ''reflect: reflect.Value.Set using value obtained using unexported field'')
          else Inr x)"

text \<open>
  \<^verbatim>\<open>FilterFields\<close> writes through the pointer it is given. The model passes the struct
  behind the pointer as state: the loop returns the fields as they are when it stops,
  together with the panic that stopped it, if any. Writes made before a panic stay.
\<close>

fun FilterFields_loop ::
  "bool \<Rightarrow> Type \<Rightarrow> sfield list \<Rightarrow> string list \<Rightarrow> nat list \<Rightarrow> sfield list \<times> panic option" where
  "FilterFields_loop ro modelType fs fields [] = (fs, None)"
| "FilterFields_loop ro modelType fs fields (i # more) =
     (case Field (Value ro (StructV fs)) i of
        Inl p \<Rightarrow> (fs, Some p)
      | Inr field \<Rightarrow>
     (case IsNil field of
        Inl p \<Rightarrow> (fs, Some p)
      | Inr True \<Rightarrow> FilterFields_loop ro modelType fs fields more
      | Inr False \<Rightarrow>
     (case Type_Field modelType i of
        Inl p \<Rightarrow> (fs, Some p)
      | Inr sf \<Rightarrow>
          if containsField (Name sf) fields then FilterFields_loop ro modelType fs fields more
          else
           (case Set field (Zero (fvalue (fs ! i))) of
              Inl p \<Rightarrow> (fs, Some p)
            | Inr x \<Rightarrow>
                FilterFields_loop ro modelType
                  (fs[i := SField (fname (fs ! i)) (fexported (fs ! i)) (ftag (fs ! i)) x]) fields more))))"

definition FilterFields :: "gval \<Rightarrow> string list \<Rightarrow> gval \<times> panic option" where
  "FilterFields model fields =
     (case Elem (ValueOf model) of
        Inl p \<Rightarrow> (model, Some p)
      | Inr modelValue \<Rightarrow>
     (case TypeOf modelValue of
        Inl p \<Rightarrow> (model, Some p)
      | Inr modelType \<Rightarrow>
     (case NumField modelValue of
        Inl p \<Rightarrow> (model, Some p)
      | Inr fieldsCount \<Rightarrow>
     (case modelValue of
        Value ro (StructV fs) \<Rightarrow>
          (case FilterFields_loop ro modelType fs fields [0..<fieldsCount] of
             (fs', p) \<Rightarrow> (PtrV (Some (StructV fs')), p))
      | _ \<Rightarrow> (model, None)))))"

subsection \<open>FilterMapFields\<close>

text \<open>
  \<^verbatim>\<open>FilterMapFields\<close> ranges over a Go map and deletes from it. Go does not fix the order
  of a \<^verbatim>\<open>range\<close> over a map, so the order is a parameter: \<open>keys\<close> lists the keys in the
  order in which the loop reaches them. An entry deleted before the loop reaches it is not
  produced.
\<close>

fun FilterMapFields_loop ::
  "(string \<Rightarrow> gval option) \<Rightarrow> string list \<Rightarrow> string list \<Rightarrow> (string \<Rightarrow> gval option)" where
  "FilterMapFields_loop mapData fields [] = mapData"
| "FilterMapFields_loop mapData fields (k # more) =
     (case mapData k of
        None \<Rightarrow> FilterMapFields_loop mapData fields more
      | Some v \<Rightarrow>
          if \<not> containsField k fields \<or> isNilInterface v
          then FilterMapFields_loop (mapData(k := None)) fields more
          else FilterMapFields_loop mapData fields more)"

definition FilterMapFields ::
  "(string \<Rightarrow> gval option) \<Rightarrow> string list \<Rightarrow> string list \<Rightarrow> (string \<Rightarrow> gval option)" where
  "FilterMapFields mapData fields keys = FilterMapFields_loop mapData fields keys"


section \<open>Facts about the reflect layer and the loops\<close>

lemma find_typeField:
  "find (\<lambda>sf. Name sf = n) (map typeField fs) = map_option typeField (find (\<lambda>f. fname f = n) fs)"
  by (induction fs) (simp_all add: typeField_def)

lemma Type_FieldByName_struct:
  "Type_FieldByName (Type KStruct (map typeField fs)) n =
     (case find (\<lambda>f. fname f = n) fs of
        None \<Rightarrow> Inr (StructField [] [] None, False)
      | Some f \<Rightarrow> Inr (typeField f, True))"
  by (simp add: Type_FieldByName_def find_typeField split: option.splits)

lemma TypeOf_Value: "\<exists>T. TypeOf (Value ro v) = Inr T"
  by (cases v) simp_all

text \<open>The loop over the fields stops at the first panic and otherwise threads the result.\<close>

lemma serializeFields_append:
  "serializeFields model elem T (pre @ rest) acc =
     (case serializeFields model elem T pre acc of
        Inl p \<Rightarrow> Inl p
      | Inr r \<Rightarrow> serializeFields model elem T rest r)"
proof (induction pre arbitrary: acc)
  case Nil
  show ?case by simp
next
  case (Cons e pre)
  show ?case
  proof (cases e)
    case (StrE n)
    then show ?thesis by (simp add: Cons.IH split: sum.splits)
  next
    case (FuncE f)
    show ?thesis
    proof (cases f)
      case None
      with FuncE show ?thesis by simp
    next
      case (Some g)
      obtain k x where gm: "g model = (k, x)" by (cases "g model")
      have "serializeFields model elem T ((e # pre) @ rest) acc =
              serializeFields model elem T (pre @ rest) (acc(k \<mapsto> x))"
        using FuncE Some gm by simp
      also have "\<dots> = (case serializeFields model elem T pre (acc(k \<mapsto> x)) of
                         Inl p \<Rightarrow> Inl p
                       | Inr r \<Rightarrow> serializeFields model elem T rest r)"
        by (rule Cons.IH)
      also have "\<dots> = (case serializeFields model elem T (e # pre) acc of
                         Inl p \<Rightarrow> Inl p
                       | Inr r \<Rightarrow> serializeFields model elem T rest r)"
        using FuncE Some gm by simp
      finally show ?thesis .
    qed
  next
    case (MapE kvs)
    then show ?thesis by (simp add: Cons.IH split: sum.splits)
  next
    case (OtherE k)
    then show ?thesis by simp
  qed
qed

lemma Serialize_ptr_append:
  "Serialize (PtrV (Some v)) pre = Inr r \<Longrightarrow> TypeOf (Value False v) = Inr T \<Longrightarrow>
   Serialize (PtrV (Some v)) (pre @ rest) = serializeFields (PtrV (Some v)) (Value False v) T rest r"
  by (simp add: serializeFields_append)

lemma Serialize_ptr_append_fail:
  assumes "Serialize (PtrV (Some v)) pre = Inl p"
  shows "Serialize (PtrV (Some v)) (pre @ rest) = Inl p"
proof -
  obtain T where T: "TypeOf (Value False v) = Inr T"
    using TypeOf_Value by blast
  then show ?thesis
    using assms by (simp add: serializeFields_append)
qed

lemma containsField_iff: "containsField field fields \<longleftrightarrow> field \<in> set fields"
  by (induction fields) auto

text \<open>What \<^verbatim>\<open>isNilInterface\<close> takes for nil: the nil interface and a nil pointer.\<close>

lemma isNilInterface_iff:
  "kind_of v \<noteq> KInterface \<Longrightarrow> isNilInterface v \<longleftrightarrow> v = NilIface \<or> v = PtrV None"
  by (cases v) (auto simp: isNilInterface_def)

section \<open>Serialize on a nil pointer\<close>

text \<open>
  C2. For every field list, \<^verbatim>\<open>Serialize\<close> called with a nil pointer as the model
  (a null record handle) returns the empty map and does not panic.
\<close>

theorem C2_Serialize_nil_pointer: "Serialize (PtrV None) fields = Inr Map.empty"
  by simp

section \<open>SerializeList\<close>

lemma SerializeList_loop_spec:
  assumes "\<forall>i \<in> set is. Index slice i = Inr (Value False (R ! i))"
  shows "case SerializeList_loop slice fields is of
           Inr res \<Rightarrow> length res = length is \<and>
             (\<forall>j < length is. Serialize (dynamicValue (R ! (is ! j))) fields = Inr (res ! j))
         | Inl p \<Rightarrow> (\<exists>j < length is. Serialize (dynamicValue (R ! (is ! j))) fields = Inl p)"
  using assms
proof (induction "is")
  case Nil
  show ?case by simp
next
  case (Cons i more)
  have ix: "Index slice i = Inr (Value False (R ! i))"
    using Cons.prems by simp
  have IH: "case SerializeList_loop slice fields more of
           Inr res \<Rightarrow> length res = length more \<and>
             (\<forall>j < length more. Serialize (dynamicValue (R ! (more ! j))) fields = Inr (res ! j))
         | Inl p \<Rightarrow> (\<exists>j < length more. Serialize (dynamicValue (R ! (more ! j))) fields = Inl p)"
    using Cons.IH Cons.prems by simp
  show ?case
  proof (cases "Serialize (dynamicValue (R ! i)) fields")
    case (Inl p)
    have "SerializeList_loop slice fields (i # more) = Inl p"
      using ix Inl by (simp add: Interface_def del: Serialize.simps)
    moreover have "\<exists>j < length (i # more). Serialize (dynamicValue (R ! ((i # more) ! j))) fields = Inl p"
      using Inl by (intro exI [of _ 0]) (simp del: Serialize.simps)
    ultimately show ?thesis by (simp del: Serialize.simps)
  next
    case (Inr r)
    show ?thesis
    proof (cases "SerializeList_loop slice fields more")
      case (Inl p)
      then obtain j where j: "j < length more"
        "Serialize (dynamicValue (R ! (more ! j))) fields = Inl p"
        using IH by (auto simp del: Serialize.simps)
      have "SerializeList_loop slice fields (i # more) = Inl p"
        using ix Inr Inl by (simp add: Interface_def del: Serialize.simps)
      moreover have "\<exists>j < length (i # more). Serialize (dynamicValue (R ! ((i # more) ! j))) fields = Inl p"
        using j by (intro exI [of _ "Suc j"]) (simp del: Serialize.simps)
      ultimately show ?thesis by (simp del: Serialize.simps)
    next
      case (Inr rs)
      then have rs: "length rs = length more"
        "\<forall>j < length more. Serialize (dynamicValue (R ! (more ! j))) fields = Inr (rs ! j)"
        using IH by (auto simp del: Serialize.simps)
      have eq: "SerializeList_loop slice fields (i # more) = Inr (r # rs)"
        using ix \<open>Serialize (dynamicValue (R ! i)) fields = Inr r\<close> Inr
        by (simp add: Interface_def del: Serialize.simps)
      have "\<forall>j < length (i # more). Serialize (dynamicValue (R ! ((i # more) ! j))) fields = Inr ((r # rs) ! j)"
      proof (intro allI impI)
        fix j assume "j < length (i # more)"
        then show "Serialize (dynamicValue (R ! ((i # more) ! j))) fields = Inr ((r # rs) ! j)"
          using rs(2) \<open>Serialize (dynamicValue (R ! i)) fields = Inr r\<close>
          by (cases j) (simp_all del: Serialize.simps)
      qed
      then show ?thesis using eq rs(1) by (simp del: Serialize.simps)
    qed
  qed
qed

text \<open>
  C4. For a slice or array \<open>R\<close> of models and every field list, \<^verbatim>\<open>SerializeList\<close> returns
  a list with exactly as many elements as \<open>R\<close>, whose \<open>i\<close>-th element is the result of
  \<^verbatim>\<open>Serialize\<close> on the \<open>i\<close>-th element of \<open>R\<close>: order is kept and nothing is left out.
  \<^verbatim>\<open>SerializeList\<close> panics only where \<^verbatim>\<open>Serialize\<close> panics on an element, with that panic.
  (\<open>dynamicValue\<close> is the identity on every element that is not of interface type.)
\<close>

theorem C4_SerializeList:
  assumes "models = SliceV (Some R) \<or> models = ArrayV R \<or> (models = SliceV None \<and> R = [])"
  shows "case SerializeList models fields of
           Inr res \<Rightarrow> length res = length R \<and>
             (\<forall>i < length R. Serialize (dynamicValue (R ! i)) fields = Inr (res ! i))
         | Inl p \<Rightarrow> (\<exists>i < length R. Serialize (dynamicValue (R ! i)) fields = Inl p)"
proof -
  have len: "Len (ValueOf models) = Inr (length R)"
    using assms by auto
  have "\<forall>i \<in> set [0..<length R]. Index (ValueOf models) i = Inr (Value False (R ! i))"
    using assms by (auto simp: indexList_def)
  from SerializeList_loop_spec [OF this, of fields]
  show ?thesis
    by (auto simp add: SerializeList_def len simp del: Serialize.simps split: sum.splits)
qed

text \<open>
  The witness is the input of \<^verbatim>\<open>TestSerializeListFullStruct\<close>, with a second, nil element.
\<close>

theorem C4_SerializeList_witness:
  "SerializeList
     (SliceV (Some [PtrV (Some (StructV [SField ''Field1'' True [(''json'', ''field1'')] (StringV ''foo''),
                                         SField ''Field2'' True [(''json'', ''field2'')] (IntV 42)])),
                    PtrV None]))
     [StrE ''Field1'', StrE ''Field2'']
   = Inr [[''field1'' \<mapsto> Val (StringV ''foo''), ''field2'' \<mapsto> Val (IntV 42)], Map.empty]"
  using C4_SerializeList [of
      "SliceV (Some [PtrV (Some (StructV [SField ''Field1'' True [(''json'', ''field1'')] (StringV ''foo''),
                                          SField ''Field2'' True [(''json'', ''field2'')] (IntV 42)])),
                     PtrV None])"
      "[PtrV (Some (StructV [SField ''Field1'' True [(''json'', ''field1'')] (StringV ''foo''),
                             SField ''Field2'' True [(''json'', ''field2'')] (IntV 42)])),
        PtrV None]"
      "[StrE ''Field1'', StrE ''Field2'']"]
  by (simp add: SerializeList_def indexList_def Interface_def dynamicValue_def
      serializeStrField_def Type_FieldByName_def typeField_def getSerializedName_def)

section \<open>FilterFields\<close>

text \<open>
  C1. The claim says that \<^verbatim>\<open>FilterFields\<close> resets every nil-capable field that is not
  allowed and leaves every other field alone, for every struct. The loop calls
  \<^verbatim>\<open>Value.IsNil\<close> on every field, and \<^verbatim>\<open>IsNil\<close> panics on a field whose kind has no
  nil: on \<^verbatim>\<open>struct { Field1 string; Field2 *int }\<close> the call stops at \<^verbatim>\<open>Field1\<close> and
  \<^verbatim>\<open>Field2\<close>, which is not allowed, keeps its value.
\<close>

theorem C1_counterexample:
  "FilterFields
     (PtrV (Some (StructV [SField ''Field1'' True [(''json'', ''field1'')] (StringV ''foo''),
                           SField ''Field2'' True [(''json'', ''field2'')] (PtrV (Some (IntV 42)))])))
     [''Field1''] =
   (PtrV (Some (StructV [SField ''Field1'' True [(''json'', ''field1'')] (StringV ''foo''),
                         SField ''Field2'' True [(''json'', ''field2'')] (PtrV (Some (IntV 42)))])),
    Some (ValueError ''reflect.Value.IsNil'' KString))"
  by (simp add: FilterFields_def upt_rec)

lemma IsNil_nilable:
  "kind_of v \<in> {KPtr, KSlice, KMap, KFunc, KChan, KInterface} \<Longrightarrow>
   IsNil (Value ro v) = Inr (Zero v = v) \<and> IsNil (Value ro (Zero v)) = Inr True"
  by (cases v) auto

lemma FilterFields_step:
  assumes names: "map Name sfs = map fname fs"
    and i: "i < length fs"
    and kind: "kind_of (fvalue (fs ! i)) \<in> {KPtr, KSlice, KMap, KFunc, KChan, KInterface}"
    and ok: "fexported (fs ! i) \<or> fname (fs ! i) \<in> set fields \<or>
             IsNil (Value False (fvalue (fs ! i))) = Inr True"
  shows "FilterFields_loop False (Type KStruct sfs) fs fields (i # more) =
         FilterFields_loop False (Type KStruct sfs)
           (fs[i := (if fname (fs ! i) \<in> set fields then fs ! i
                     else SField (fname (fs ! i)) (fexported (fs ! i)) (ftag (fs ! i)) (Zero (fvalue (fs ! i))))])
           fields more"
proof -
  let ?f = "fs ! i"
  let ?ro = "\<not> fexported ?f"
  have fld: "Field (Value False (StructV fs)) i = Inr (Value ?ro (fvalue ?f))"
    using i by simp
  have nil: "IsNil (Value ?ro (fvalue ?f)) = Inr (Zero (fvalue ?f) = fvalue ?f)"
    using IsNil_nilable [OF kind] by simp
  have len: "length sfs = length fs"
    using names by (metis length_map)
  have nm: "Name (sfs ! i) = fname ?f"
    using names i len by (metis nth_map)
  have tf: "Type_Field (Type KStruct sfs) i = Inr (sfs ! i)"
    using i len by (simp add: Type_Field_def)
  show ?thesis
  proof (cases "Zero (fvalue ?f) = fvalue ?f")
    case True
    then have "SField (fname ?f) (fexported ?f) (ftag ?f) (Zero (fvalue ?f)) = ?f"
      by simp
    then have "fs[i := (if fname ?f \<in> set fields then ?f
                     else SField (fname ?f) (fexported ?f) (ftag ?f) (Zero (fvalue ?f)))] = fs"
      by simp
    moreover have "FilterFields_loop False (Type KStruct sfs) fs fields (i # more) =
        FilterFields_loop False (Type KStruct sfs) fs fields more"
      using fld nil True by simp
    ultimately show ?thesis by simp
  next
    case False
    show ?thesis
    proof (cases "fname ?f \<in> set fields")
      case True
      then show ?thesis
        using fld nil False tf nm by (simp add: containsField_iff)
    next
      case notin: False
      have "IsNil (Value False (fvalue ?f)) = Inr False"
        using IsNil_nilable [OF kind, of False] False by simp
      then have "fexported ?f"
        using ok notin by simp
      then show ?thesis
        using fld nil False tf nm notin by (simp add: containsField_iff Set_def)
    qed
  qed
qed


lemma FilterFields_loop_ok:
  fixes fields :: "string list"
  defines "filt \<equiv> \<lambda>f. if fname f \<in> set fields then f
                      else SField (fname f) (fexported f) (ftag f) (Zero (fvalue f))"
  assumes "map Name sfs = map fname fs"
    and "distinct is"
    and "\<forall>i \<in> set is. i < length fs \<and>
           kind_of (fvalue (fs ! i)) \<in> {KPtr, KSlice, KMap, KFunc, KChan, KInterface} \<and>
           (fexported (fs ! i) \<or> fname (fs ! i) \<in> set fields \<or>
            IsNil (Value False (fvalue (fs ! i))) = Inr True)"
  shows "FilterFields_loop False (Type KStruct sfs) fs fields is =
           (map (\<lambda>j. if j \<in> set is then filt (fs ! j) else fs ! j) [0..<length fs], None)"
  using assms(2-)
proof (induction "is" arbitrary: fs)
  case Nil
  show ?case by (simp add: map_nth)
next
  case (Cons i more)
  let ?fs1 = "fs[i := filt (fs ! i)]"
  have i: "i < length fs" and inot: "i \<notin> set more"
    using Cons.prems by simp_all
  have step: "FilterFields_loop False (Type KStruct sfs) fs fields (i # more) =
              FilterFields_loop False (Type KStruct sfs) ?fs1 fields more"
    unfolding filt_def using Cons.prems by (intro FilterFields_step) simp_all
  have fn: "fname (filt (fs ! i)) = fname (fs ! i)"
    by (simp add: filt_def)
  have "(map fname fs)[i := fname (fs ! i)] = map fname fs"
    using i by (metis list_update_id nth_map)
  then have names1: "map Name sfs = map fname ?fs1"
    using Cons.prems(1) fn by (simp add: map_update)
  have same: "\<forall>k \<in> set more. ?fs1 ! k = fs ! k"
    using inot by (metis nth_list_update_neq)
  have good1: "\<forall>k \<in> set more. k < length ?fs1 \<and>
           kind_of (fvalue (?fs1 ! k)) \<in> {KPtr, KSlice, KMap, KFunc, KChan, KInterface} \<and>
           (fexported (?fs1 ! k) \<or> fname (?fs1 ! k) \<in> set fields \<or>
            IsNil (Value False (fvalue (?fs1 ! k))) = Inr True)"
    using Cons.prems(3) same by simp
  have d1: "distinct more"
    using Cons.prems(2) by simp
  have IH: "FilterFields_loop False (Type KStruct sfs) ?fs1 fields more =
           (map (\<lambda>j. if j \<in> set more then filt (?fs1 ! j) else ?fs1 ! j) [0..<length ?fs1], None)"
    by (rule Cons.IH [OF names1 d1 good1])
  have "map (\<lambda>j. if j \<in> set more then filt (?fs1 ! j) else ?fs1 ! j) [0..<length ?fs1] =
        map (\<lambda>j. if j \<in> set (i # more) then filt (fs ! j) else fs ! j) [0..<length fs]"
  proof (rule map_cong)
    show "[0..<length ?fs1] = [0..<length fs]" by simp
  next
    fix j assume "j \<in> set [0..<length fs]"
    then have j: "j < length fs" by simp
    show "(if j \<in> set more then filt (?fs1 ! j) else ?fs1 ! j) =
          (if j \<in> set (i # more) then filt (fs ! j) else fs ! j)"
    proof (cases "j = i")
      case True
      then show ?thesis using inot i by simp
    next
      case False
      then show ?thesis by simp
    qed
  qed
  then show ?case using step IH by simp
qed

text \<open>
  C1, amended. For a pointer to a struct all of whose fields are of nil-capable kind
  (pointer, slice, map, function, channel, interface), and whose fields that are to be
  reset are exported: \<^verbatim>\<open>FilterFields\<close> returns without a panic, every field whose name
  is not in the list has become the zero value of its type, which is nil, and every field
  whose name is in the list is unchanged. Names and tags stay, and nothing below the fields
  is touched.
\<close>

theorem C1_FilterFields:
  assumes "\<forall>f \<in> set fs.
             kind_of (fvalue f) \<in> {KPtr, KSlice, KMap, KFunc, KChan, KInterface} \<and>
             (fexported f \<or> fname f \<in> set fields \<or>
              IsNil (Value False (fvalue f)) = Inr True)"
  shows "FilterFields (PtrV (Some (StructV fs))) fields =
           (PtrV (Some (StructV
              (map (\<lambda>f. if fname f \<in> set fields then f
                         else SField (fname f) (fexported f) (ftag f) (Zero (fvalue f))) fs))), None)
         \<and> (\<forall>f \<in> set fs. IsNil (Value False (Zero (fvalue f))) = Inr True)"
proof -
  let ?filt = "\<lambda>f. if fname f \<in> set fields then f
                   else SField (fname f) (fexported f) (ftag f) (Zero (fvalue f))"
  have names: "map Name (map typeField fs) = map fname fs"
    by (simp add: typeField_def comp_def)
  have good: "\<forall>i \<in> set [0..<length fs]. i < length fs \<and>
           kind_of (fvalue (fs ! i)) \<in> {KPtr, KSlice, KMap, KFunc, KChan, KInterface} \<and>
           (fexported (fs ! i) \<or> fname (fs ! i) \<in> set fields \<or>
            IsNil (Value False (fvalue (fs ! i))) = Inr True)"
    using assms by simp
  have "FilterFields_loop False (Type KStruct (map typeField fs)) fs fields [0..<length fs] =
          (map (\<lambda>j. if j \<in> set [0..<length fs] then ?filt (fs ! j) else fs ! j) [0..<length fs], None)"
    by (rule FilterFields_loop_ok [OF names distinct_upt good])
  also have "map (\<lambda>j. if j \<in> set [0..<length fs] then ?filt (fs ! j) else fs ! j) [0..<length fs]
               = map (\<lambda>j. ?filt (fs ! j)) [0..<length fs]"
    by (rule map_cong) simp_all
  also have "\<dots> = map ?filt (map (\<lambda>j. fs ! j) [0..<length fs])"
    by (simp add: comp_def)
  also have "\<dots> = map ?filt fs"
    by (simp add: map_nth)
  finally have loop:
    "FilterFields_loop False (Type KStruct (map typeField fs)) fs fields [0..<length fs] =
       (map ?filt fs, None)" .
  have "FilterFields (PtrV (Some (StructV fs))) fields = (PtrV (Some (StructV (map ?filt fs))), None)"
    by (simp add: FilterFields_def loop)
  moreover have "\<forall>f \<in> set fs. IsNil (Value False (Zero (fvalue f))) = Inr True"
    using assms IsNil_nilable by blast
  ultimately show ?thesis by simp
qed

text \<open>The witness is the input of \<^verbatim>\<open>TestFilterFields\<close>.\<close>

theorem C1_FilterFields_witness:
  "FilterFields
     (PtrV (Some (StructV [SField ''Field1'' True [(''json'', ''field1'')] (PtrV (Some (StringV ''foo''))),
                           SField ''Field2'' True [(''json'', ''field2'')] (PtrV (Some (IntV 42)))])))
     [''Field2''] =
   (PtrV (Some (StructV [SField ''Field1'' True [(''json'', ''field1'')] (PtrV None),
                         SField ''Field2'' True [(''json'', ''field2'')] (PtrV (Some (IntV 42)))])),
    None)"
  using C1_FilterFields [of
      "[SField ''Field1'' True [(''json'', ''field1'')] (PtrV (Some (StringV ''foo''))),
        SField ''Field2'' True [(''json'', ''field2'')] (PtrV (Some (IntV 42)))]"
      "[''Field2'']"]
  by (simp add:)

section \<open>FilterMapFields\<close>

lemma FilterMapFields_loop_eq:
  "FilterMapFields_loop mapData fields keys k =
     (if k \<in> set keys \<and> (\<exists>v. mapData k = Some v \<and> (k \<notin> set fields \<or> isNilInterface v))
      then None else mapData k)"
proof (induction keys arbitrary: mapData)
  case Nil
  show ?case by simp
next
  case (Cons k' keys)
  show ?case
  proof (cases "mapData k'")
    case None
    then show ?thesis by (auto simp: Cons.IH)
  next
    case (Some v)
    then show ?thesis by (auto simp: Cons.IH containsField_iff)
  qed
qed

text \<open>
  C5. The claim says that an entry is removed when its key is not allowed or its value is a
  null reference, and kept otherwise. \<^verbatim>\<open>isNilInterface\<close> takes only the nil interface and
  a nil pointer for nil: a nil slice (and likewise a nil map, function or channel) under an
  allowed key is kept.
\<close>

theorem C5_counterexample:
  "FilterMapFields [''field1'' \<mapsto> SliceV None] [''field1''] [''field1''] ''field1'' =
     Some (SliceV None)"
  by (simp add: FilterMapFields_def isNilInterface_def)

text \<open>
  C5, amended. For every map of interface values, every list of allowed keys and every order
  \<open>keys\<close> in which the \<^verbatim>\<open>range\<close> loop may visit the keys of the map: after
  \<^verbatim>\<open>FilterMapFields\<close> the key set is the set of original keys that are allowed and whose
  value is neither the nil interface nor a nil pointer, and every key that is kept has the
  value it had. Values are not looked into (the filter is shallow). The values of a
  \<^verbatim>\<open>map[string]interface{}\<close> are dynamic values, which is the second hypothesis.
\<close>

theorem C5_FilterMapFields:
  assumes "set keys = dom mapData"
    and "\<forall>v \<in> ran mapData. kind_of v \<noteq> KInterface"
  shows "dom (FilterMapFields mapData fields keys) =
           {k \<in> dom mapData. k \<in> set fields \<and>
              mapData k \<noteq> Some NilIface \<and> mapData k \<noteq> Some (PtrV None)}
         \<and> (\<forall>k \<in> dom (FilterMapFields mapData fields keys).
               FilterMapFields mapData fields keys k = mapData k)"
proof -
  have nil: "isNilInterface v \<longleftrightarrow> v = NilIface \<or> v = PtrV None" if "mapData k = Some v" for k v
  proof -
    have "v \<in> ran mapData"
      using that by (auto simp: ran_def)
    then show ?thesis
      using assms(2) isNilInterface_iff by blast
  qed
  have keys: "k \<in> set keys \<longleftrightarrow> (\<exists>v. mapData k = Some v)" for k
    using assms(1) by (auto simp: dom_def)
  have look: "FilterMapFields mapData fields keys k =
          (if \<exists>v. mapData k = Some v \<and> (k \<notin> set fields \<or> v = NilIface \<or> v = PtrV None)
           then None else mapData k)" for k
  proof (cases "mapData k")
    case None
    then show ?thesis
      by (simp add: FilterMapFields_def FilterMapFields_loop_eq)
  next
    case (Some v)
    then show ?thesis
      using nil [OF Some] keys [of k]
      by (simp add: FilterMapFields_def FilterMapFields_loop_eq)
  qed
  have "dom (FilterMapFields mapData fields keys) =
           {k \<in> dom mapData. k \<in> set fields \<and>
              mapData k \<noteq> Some NilIface \<and> mapData k \<noteq> Some (PtrV None)}"
    by (auto simp: dom_def look split: if_splits)
  moreover have "\<forall>k \<in> dom (FilterMapFields mapData fields keys).
               FilterMapFields mapData fields keys k = mapData k"
    by (auto simp: dom_def look split: if_splits)
  ultimately show ?thesis by simp
qed

text \<open>
  The witness is the input of \<^verbatim>\<open>TestFilterMapFields\<close>, with a nil pointer and a nil map
  added under allowed keys: the first is removed, the second is kept.
\<close>

theorem C5_FilterMapFields_witness:
  "dom (FilterMapFields
          [''field1'' \<mapsto> IntV 1, ''field2'' \<mapsto> StringV ''val'', ''field3'' \<mapsto> NilIface,
           ''field4'' \<mapsto> PtrV None, ''field5'' \<mapsto> MapV None]
          [''field1'', ''field3'', ''field4'', ''field5'']
          [''field5'', ''field3'', ''field1'', ''field4'', ''field2'']) = {''field1'', ''field5''}
   \<and> FilterMapFields
          [''field1'' \<mapsto> IntV 1, ''field2'' \<mapsto> StringV ''val'', ''field3'' \<mapsto> NilIface,
           ''field4'' \<mapsto> PtrV None, ''field5'' \<mapsto> MapV None]
          [''field1'', ''field3'', ''field4'', ''field5'']
          [''field5'', ''field3'', ''field1'', ''field4'', ''field2''] ''field1'' = Some (IntV 1)"
proof -
  let ?m = "[''field1'' \<mapsto> IntV 1, ''field2'' \<mapsto> StringV ''val'', ''field3'' \<mapsto> NilIface,
             ''field4'' \<mapsto> PtrV None, ''field5'' \<mapsto> MapV None]"
  let ?allow = "[''field1'', ''field3'', ''field4'', ''field5'']"
  have k: "set [''field5'', ''field3'', ''field1'', ''field4'', ''field2''] = dom ?m"
    by auto
  have v: "\<forall>v \<in> ran ?m. kind_of v \<noteq> KInterface"
    by (auto simp: ran_def split: if_splits)
  have "{k \<in> dom ?m. k \<in> set ?allow \<and> ?m k \<noteq> Some NilIface \<and> ?m k \<noteq> Some (PtrV None)}
          = {''field1'', ''field5''}"
    by (auto split: if_splits)
  then show ?thesis
    using C5_FilterMapFields [OF k v, of ?allow] by auto
qed

section \<open>Panics of Serialize\<close>

text \<open>
  \<^verbatim>\<open>Serialize\<close> processes the field list in order and stops at the first panic. Each of
  the three theorems below has two parts, for a model that is a non-nil pointer (on a nil
  pointer \<^verbatim>\<open>Serialize\<close> returns before it reads the list): a list that holds the
  entry in question makes \<^verbatim>\<open>Serialize\<close> panic, whatever comes before and after the
  entry; and when the entries before it, \<open>pre\<close>, are processed without a panic, the panic
  is the one of the entry in question.
\<close>

text \<open>
  C6. For a pointer to a struct and a string entry naming a field of the struct that has no
  \<^verbatim>\<open>json\<close> tag, \<^verbatim>\<open>Serialize\<close> panics, with the message
  \<^verbatim>\<open>Field "<name>" has no json tag\<close>, which carries the name of the field.
\<close>

theorem C6_missing_json_tag:
  assumes "find (\<lambda>f. fname f = name) fs = Some f"
    and "map_of (ftag f) ''json'' = None"
  shows "(\<exists>p. Serialize (PtrV (Some (StructV fs))) (pre @ StrE name # post) = Inl p) \<and>
         (\<forall>r. Serialize (PtrV (Some (StructV fs))) pre = Inr r \<longrightarrow>
              Serialize (PtrV (Some (StructV fs))) (pre @ StrE name # post) =
                Inl (PanicString
                  (''Field '' @ [CHR 0x22] @ name @ [CHR 0x22] @ '' has no json tag'')))"
proof -
  have T: "TypeOf (Value False (StructV fs)) = Inr (Type KStruct (map typeField fs))"
    by simp
  have n: "fname f = name"
    using assms(1) by (auto simp: find_Some_iff)
  have field: "serializeStrField (Value False (StructV fs)) (Type KStruct (map typeField fs)) name r =
          Inl (PanicString (''Field '' @ [CHR 0x22] @ name @ [CHR 0x22] @ '' has no json tag''))"
    for r
    using assms n
    by (simp add: serializeStrField_def Type_FieldByName_struct getSerializedName_def typeField_def)
  have reached: "Serialize (PtrV (Some (StructV fs))) (pre @ StrE name # post) =
          Inl (PanicString (''Field '' @ [CHR 0x22] @ name @ [CHR 0x22] @ '' has no json tag''))"
    if "Serialize (PtrV (Some (StructV fs))) pre = Inr r" for r
    unfolding Serialize_ptr_append [OF that T] using field by simp
  have "\<exists>p. Serialize (PtrV (Some (StructV fs))) (pre @ StrE name # post) = Inl p"
  proof (cases "Serialize (PtrV (Some (StructV fs))) pre")
    case (Inl p)
    then show ?thesis using Serialize_ptr_append_fail by blast
  next
    case (Inr r)
    then show ?thesis using reached by blast
  qed
  then show ?thesis using reached by blast
qed

text \<open>The witness is the input of \<^verbatim>\<open>TestSerializeFieldWithoutTag\<close>.\<close>

theorem C6_missing_json_tag_witness:
  "Serialize (PtrV (Some (StructV [SField ''Field1'' True [] (StringV ''foo'')])))
     ([] @ StrE ''Field1'' # []) =
   Inl (PanicString (''Field '' @ [CHR 0x22] @ ''Field1'' @ [CHR 0x22] @ '' has no json tag''))"
  using C6_missing_json_tag [of "''Field1''" "[SField ''Field1'' True [] (StringV ''foo'')]"
      "SField ''Field1'' True [] (StringV ''foo'')" "[]" "[]"]
  by simp

text \<open>
  C8. The claim says that \<^verbatim>\<open>Serialize\<close> fails on every entry that is not a string, a
  \<^verbatim>\<open>FieldSerializer\<close> or a mapping with a single key. The \<^verbatim>\<open>default\<close> branch ranges
  over a \<^verbatim>\<open>map[string][]interface{}\<close> with any number of keys: a map with no key is
  accepted and adds nothing, and a map with two keys is processed key by key.
\<close>

theorem C8_counterexample:
  "Serialize (PtrV (Some (StructV [SField ''Field1'' True [(''json'', ''field1'')] (StringV ''foo'')])))
     [MapE []] = Inr Map.empty"
  by simp

text \<open>
  C8, amended. For a non-nil pointer and an entry of the field list that is neither a string,
  nor a \<^verbatim>\<open>FieldSerializer\<close>, nor a \<^verbatim>\<open>map[string][]interface{}\<close> (of any number of
  keys), \<^verbatim>\<open>Serialize\<close> panics: with \<^verbatim>\<open>Undefined func type for serializer.\<close> when the
  entry is a function of another type, and with the failed type assertion of the
  \<^verbatim>\<open>switch\<close> otherwise.
\<close>

theorem C8_unknown_entry:
  "(\<exists>p. Serialize (PtrV (Some v)) (pre @ OtherE k # post) = Inl p) \<and>
   (\<forall>r. Serialize (PtrV (Some v)) pre = Inr r \<longrightarrow>
        Serialize (PtrV (Some v)) (pre @ OtherE k # post) =
          Inl (if k = KFunc then PanicString ''Undefined func type for serializer.''
               else TypeAssertionError))"
proof -
  obtain T where T: "TypeOf (Value False v) = Inr T"
    using TypeOf_Value by blast
  have reached: "Serialize (PtrV (Some v)) (pre @ OtherE k # post) =
          Inl (if k = KFunc then PanicString ''Undefined func type for serializer.''
               else TypeAssertionError)"
    if "Serialize (PtrV (Some v)) pre = Inr r" for r
    unfolding Serialize_ptr_append [OF that T] by simp
  have "\<exists>p. Serialize (PtrV (Some v)) (pre @ OtherE k # post) = Inl p"
  proof (cases "Serialize (PtrV (Some v)) pre")
    case (Inl p)
    then show ?thesis using Serialize_ptr_append_fail by blast
  next
    case (Inr r)
    then show ?thesis using reached by blast
  qed
  then show ?thesis using reached by blast
qed

theorem C8_unknown_entry_witness:
  "Serialize (PtrV (Some (StructV [SField ''Field1'' True [(''json'', ''field1'')] (StringV ''foo'')])))
     ([StrE ''Field1''] @ OtherE KInt # [StrE ''Field1'']) = Inl TypeAssertionError
   \<and> Serialize (PtrV (Some (StructV [SField ''Field1'' True [(''json'', ''field1'')] (StringV ''foo'')])))
     ([] @ OtherE KFunc # []) = Inl (PanicString ''Undefined func type for serializer.'')"
  using C8_unknown_entry [of "StructV [SField ''Field1'' True [(''json'', ''field1'')] (StringV ''foo'')]"
      "[StrE ''Field1'']" KInt "[StrE ''Field1'']"]
    C8_unknown_entry [of "StructV [SField ''Field1'' True [(''json'', ''field1'')] (StringV ''foo'')]"
      "[]" KFunc "[]"]
  by (simp add: serializeStrField_def Type_FieldByName_def typeField_def getSerializedName_def
      Interface_def dynamicValue_def)

text \<open>
  C7. The claim says that a nested entry fails whenever the declared type of its field is not
  pointer-to-struct, struct, or sequence of pointer-to-struct. The \<^verbatim>\<open>switch\<close> looks at the
  kind of the field only, not at what a pointer points to or what a sequence holds: a field
  of type \<^verbatim>\<open>*int\<close> goes down the pointer branch, where \<^verbatim>\<open>Serialize\<close> on the
  \<^verbatim>\<open>*int\<close> with an empty child list returns the empty map.
\<close>

theorem C7_counterexample:
  "Serialize (PtrV (Some (StructV [SField ''F'' True [(''json'', ''f'')] (PtrV (Some (IntV 5)))])))
     [MapE [(''F'', [])]] = Inr [''f'' \<mapsto> Obj Map.empty]"
  by (simp add: Type_FieldByName_def typeField_def getSerializedName_def Interface_def
      dynamicValue_def)

text \<open>
  C7, amended. For a pointer to a struct and a nested entry naming a field that has a
  \<^verbatim>\<open>json\<close> tag and whose kind is none of slice, array, pointer and struct (a map, a
  primitive, an interface, a function, a channel), \<^verbatim>\<open>Serialize\<close> panics, with
  \<^verbatim>\<open>Undefined type for serializer. Need to implement it\<close>.
\<close>

theorem C7_unsupported_kind:
  assumes "find (\<lambda>f. fname f = name) fs = Some f"
    and "map_of (ftag f) ''json'' = Some w"
    and "kind_of (fvalue f) \<notin> {KSlice, KArray, KPtr, KStruct}"
  shows "(\<exists>p. Serialize (PtrV (Some (StructV fs)))
                 (pre @ MapE ((name, child) # more) # post) = Inl p) \<and>
         (\<forall>r. Serialize (PtrV (Some (StructV fs))) pre = Inr r \<longrightarrow>
              Serialize (PtrV (Some (StructV fs))) (pre @ MapE ((name, child) # more) # post) =
                Inl (PanicString ''Undefined type for serializer. Need to implement it''))"
proof -
  have T: "TypeOf (Value False (StructV fs)) = Inr (Type KStruct (map typeField fs))"
    by simp
  have nested: "serializeNested (Value False (StructV fs)) (Type KStruct (map typeField fs))
          ((name, child) # more) r =
          Inl (PanicString ''Undefined type for serializer. Need to implement it'')" for r
    using assms
    by (simp add: Type_FieldByName_struct getSerializedName_def typeField_def)
  have reached: "Serialize (PtrV (Some (StructV fs))) (pre @ MapE ((name, child) # more) # post) =
          Inl (PanicString ''Undefined type for serializer. Need to implement it'')"
    if "Serialize (PtrV (Some (StructV fs))) pre = Inr r" for r
    unfolding Serialize_ptr_append [OF that T] using nested by simp
  have "\<exists>p. Serialize (PtrV (Some (StructV fs)))
              (pre @ MapE ((name, child) # more) # post) = Inl p"
  proof (cases "Serialize (PtrV (Some (StructV fs))) pre")
    case (Inl p)
    then show ?thesis using Serialize_ptr_append_fail by blast
  next
    case (Inr r)
    then show ?thesis using reached by blast
  qed
  then show ?thesis using reached by blast
qed

text \<open>The witness is the input of \<^verbatim>\<open>TestSerializeFieldWithUnexpectedPassedField\<close>.\<close>

theorem C7_unsupported_kind_witness:
  "Serialize (PtrV (Some (StructV [SField ''Field1'' True [(''json'', ''field'')] (MapV None)])))
     ([] @ MapE [(''Field1'', [StrE ''Field2''])] # []) =
   Inl (PanicString ''Undefined type for serializer. Need to implement it'')"
  using C7_unsupported_kind [of "''Field1''" "[SField ''Field1'' True [(''json'', ''field'')] (MapV None)]"
      "SField ''Field1'' True [(''json'', ''field'')] (MapV None)" "''field''" "[]"
      "[StrE ''Field2'']" "[]" "[]"]
  by simp

section \<open>String entries\<close>

text \<open>
  C3. The claim says that \<^verbatim>\<open>Serialize\<close> returns the map of wire names to field values for
  every struct and every list of string entries whose fields have a \<^verbatim>\<open>json\<close> tag. A tagged
  field whose name is not exported is read through a read-only \<^verbatim>\<open>reflect.Value\<close>, and
  \<^verbatim>\<open>Value.Interface\<close> panics on it: for
  \<^verbatim>\<open>struct { field1 string `json:"field1"` }\<close> and the list \<^verbatim>\<open>["field1"]\<close> no map is
  returned.
\<close>

theorem C3_counterexample:
  "Serialize (PtrV (Some (StructV [SField ''field1'' False [(''json'', ''field1'')] (StringV ''foo'')])))
     [StrE ''field1''] =
   Inl (ReflectPanic
     ''reflect.Value.Interface: cannot return value obtained from unexported field or method'')"
  by (simp add: serializeStrField_def Type_FieldByName_def typeField_def getSerializedName_def
      Interface_def)

lemma serializeStrField_ok:
  assumes "find (\<lambda>f. fname f = n) fs = Some f"
    and "map_of (ftag f) ''json'' = Some w"
    and "fexported f"
  shows "serializeStrField (Value False (StructV fs)) (Type KStruct (map typeField fs)) n acc =
           Inr (acc(w \<mapsto> Val (dynamicValue (fvalue f))))"
proof -
  have "fname f = n"
    using assms(1) by (auto simp: find_Some_iff)
  then show ?thesis
    using assms
    by (simp add: serializeStrField_def Type_FieldByName_struct getSerializedName_def
        typeField_def Interface_def)
qed

lemma serializeFields_leaves:
  assumes "\<forall>n \<in> set names. find (\<lambda>f. fname f = n) fs = Some (fld n) \<and>
             map_of (ftag (fld n)) ''json'' = Some (wire n) \<and> fexported (fld n)"
  shows "\<exists>m. serializeFields model (Value False (StructV fs)) (Type KStruct (map typeField fs))
               (map StrE names) acc = Inr m
           \<and> dom m = dom acc \<union> wire ` set names
           \<and> (\<forall>k. k \<notin> wire ` set names \<longrightarrow> m k = acc k)
           \<and> (\<forall>n \<in> set names.
                 (\<forall>n' \<in> set names. wire n' = wire n \<longrightarrow> fvalue (fld n') = fvalue (fld n)) \<longrightarrow>
                 m (wire n) = Some (Val (dynamicValue (fvalue (fld n)))))"
  using assms
proof (induction names arbitrary: acc)
  case Nil
  show ?case by simp
next
  case (Cons a names)
  let ?acc = "acc(wire a \<mapsto> Val (dynamicValue (fvalue (fld a))))"
  have step: "serializeStrField (Value False (StructV fs)) (Type KStruct (map typeField fs)) a acc =
                Inr ?acc"
    using Cons.prems by (intro serializeStrField_ok) simp_all
  have "\<forall>n \<in> set names. find (\<lambda>f. fname f = n) fs = Some (fld n) \<and>
             map_of (ftag (fld n)) ''json'' = Some (wire n) \<and> fexported (fld n)"
    using Cons.prems by simp
  from Cons.IH [OF this, of ?acc]
  obtain m where IH:
    "serializeFields model (Value False (StructV fs)) (Type KStruct (map typeField fs))
       (map StrE names) ?acc = Inr m
     \<and> dom m = dom ?acc \<union> wire ` set names
     \<and> (\<forall>k. k \<notin> wire ` set names \<longrightarrow> m k = ?acc k)
     \<and> (\<forall>n \<in> set names.
        (\<forall>n' \<in> set names. wire n' = wire n \<longrightarrow> fvalue (fld n') = fvalue (fld n)) \<longrightarrow>
        m (wire n) = Some (Val (dynamicValue (fvalue (fld n)))))" ..
  note m = conjunct1 [OF IH] conjunct1 [OF conjunct2 [OF IH]]
    conjunct1 [OF conjunct2 [OF conjunct2 [OF IH]]]
    conjunct2 [OF conjunct2 [OF conjunct2 [OF IH]]]
  have run: "serializeFields model (Value False (StructV fs)) (Type KStruct (map typeField fs))
       (map StrE (a # names)) acc = Inr m"
    using step m(1) by simp
  have d: "dom m = dom acc \<union> wire ` set (a # names)"
    using m(2) by auto
  have k: "\<forall>k. k \<notin> wire ` set (a # names) \<longrightarrow> m k = acc k"
    using m(3) by auto
  have v: "\<forall>n \<in> set (a # names).
        (\<forall>n' \<in> set (a # names). wire n' = wire n \<longrightarrow> fvalue (fld n') = fvalue (fld n)) \<longrightarrow>
        m (wire n) = Some (Val (dynamicValue (fvalue (fld n))))"
  proof (intro ballI impI)
    fix n
    assume n: "n \<in> set (a # names)"
      and same: "\<forall>n' \<in> set (a # names). wire n' = wire n \<longrightarrow> fvalue (fld n') = fvalue (fld n)"
    show "m (wire n) = Some (Val (dynamicValue (fvalue (fld n))))"
    proof (cases "wire n \<in> wire ` set names")
      case True
      then obtain n' where n': "n' \<in> set names" "wire n' = wire n"
        by auto
      have "\<forall>n'' \<in> set names. wire n'' = wire n' \<longrightarrow> fvalue (fld n'') = fvalue (fld n')"
        using same n' by simp
      then have "m (wire n') = Some (Val (dynamicValue (fvalue (fld n'))))"
        using m(4) n'(1) by blast
      moreover have "fvalue (fld n') = fvalue (fld n)"
        using same n' by simp
      ultimately show ?thesis using n'(2) by simp
    next
      case False
      then have "n = a" using n by auto
      moreover have "m (wire n) = ?acc (wire n)"
        using m(3) False by blast
      ultimately show ?thesis by simp
    qed
  qed
  show ?case
  proof (intro exI [of _ m] conjI)
    show "serializeFields model (Value False (StructV fs)) (Type KStruct (map typeField fs))
       (map StrE (a # names)) acc = Inr m" by (rule run)
    show "dom m = dom acc \<union> wire ` set (a # names)" by (rule d)
    show "\<forall>k. k \<notin> wire ` set (a # names) \<longrightarrow> m k = acc k" by (rule k)
    show "\<forall>n \<in> set (a # names).
        (\<forall>n' \<in> set (a # names). wire n' = wire n \<longrightarrow> fvalue (fld n') = fvalue (fld n)) \<longrightarrow>
        m (wire n) = Some (Val (dynamicValue (fvalue (fld n))))" by (rule v)
  qed
qed

text \<open>
  C3, amended. For a pointer to a struct and a list of string entries, each naming an
  exported field of the struct that has a \<^verbatim>\<open>json\<close> tag (\<open>fld n\<close> is the field named
  \<open>n\<close>, \<open>wire n\<close> its tag value), \<^verbatim>\<open>Serialize\<close> returns a map whose key set is the set
  of wire names of the named fields. Its value at the wire name of a named field is the
  value of that field, provided every named field with the same wire name has the same
  value (entries are written in order, so among fields sharing a wire name the last one
  named wins).
\<close>

theorem C3_leaf_fields:
  assumes "\<forall>n \<in> set names. find (\<lambda>f. fname f = n) fs = Some (fld n) \<and>
             map_of (ftag (fld n)) ''json'' = Some (wire n) \<and> fexported (fld n)"
  shows "\<exists>m. Serialize (PtrV (Some (StructV fs))) (map StrE names) = Inr m
           \<and> dom m = wire ` set names
           \<and> (\<forall>n \<in> set names.
                 (\<forall>n' \<in> set names. wire n' = wire n \<longrightarrow> fvalue (fld n') = fvalue (fld n)) \<longrightarrow>
                 m (wire n) = Some (Val (dynamicValue (fvalue (fld n)))))"
proof -
  from serializeFields_leaves [OF assms, of "PtrV (Some (StructV fs))" Map.empty]
  obtain m where m:
    "serializeFields (PtrV (Some (StructV fs))) (Value False (StructV fs))
       (Type KStruct (map typeField fs)) (map StrE names) Map.empty = Inr m
     \<and> dom m = dom (Map.empty :: string \<Rightarrow> pval option) \<union> wire ` set names
     \<and> (\<forall>k. k \<notin> wire ` set names \<longrightarrow> m k = Map.empty k)
     \<and> (\<forall>n \<in> set names.
           (\<forall>n' \<in> set names. wire n' = wire n \<longrightarrow> fvalue (fld n') = fvalue (fld n)) \<longrightarrow>
           m (wire n) = Some (Val (dynamicValue (fvalue (fld n)))))" ..
  show ?thesis
  proof (intro exI [of _ m] conjI)
    show "Serialize (PtrV (Some (StructV fs))) (map StrE names) = Inr m"
      using conjunct1 [OF m] by simp
    show "dom m = wire ` set names"
      using conjunct1 [OF conjunct2 [OF m]] by simp
    show "\<forall>n \<in> set names.
           (\<forall>n' \<in> set names. wire n' = wire n \<longrightarrow> fvalue (fld n') = fvalue (fld n)) \<longrightarrow>
           m (wire n) = Some (Val (dynamicValue (fvalue (fld n))))"
      by (rule conjunct2 [OF conjunct2 [OF conjunct2 [OF m]]])
  qed
qed

text \<open>The witness is the input of \<^verbatim>\<open>TestSerializeFullStruct\<close>.\<close>

theorem C3_leaf_fields_witness:
  "Serialize (PtrV (Some (StructV [SField ''Field1'' True [(''json'', ''field1'')] (StringV ''foo''),
                                   SField ''Field2'' True [(''json'', ''field2'')] (IntV 42)])))
     (map StrE [''Field1'', ''Field2''])
   = Inr [''field1'' \<mapsto> Val (StringV ''foo''), ''field2'' \<mapsto> Val (IntV 42)]
   \<and> (\<exists>m. Serialize (PtrV (Some (StructV [SField ''Field1'' True [(''json'', ''field1'')] (StringV ''foo''),
                                   SField ''Field2'' True [(''json'', ''field2'')] (IntV 42)])))
     (map StrE [''Field1'', ''Field2'']) = Inr m
       \<and> dom m = {''field1'', ''field2''}
       \<and> m ''field1'' = Some (Val (StringV ''foo'')) \<and> m ''field2'' = Some (Val (IntV 42)))"
proof -
  let ?f1 = "SField ''Field1'' True [(''json'', ''field1'')] (StringV ''foo'')"
  let ?f2 = "SField ''Field2'' True [(''json'', ''field2'')] (IntV 42)"
  let ?fld = "\<lambda>n. if n = ''Field1'' then ?f1 else ?f2"
  let ?wire = "\<lambda>n. if n = ''Field1'' then ''field1'' else ''field2''"
  have h: "\<forall>n \<in> set [''Field1'', ''Field2''].
             find (\<lambda>f. fname f = n) [?f1, ?f2] = Some (?fld n) \<and>
             map_of (ftag (?fld n)) ''json'' = Some (?wire n) \<and> fexported (?fld n)"
    by (simp add:)
  have e: "Serialize (PtrV (Some (StructV [?f1, ?f2]))) (map StrE [''Field1'', ''Field2''])
   = Inr [''field1'' \<mapsto> Val (StringV ''foo''), ''field2'' \<mapsto> Val (IntV 42)]"
    by (simp add: serializeStrField_def Type_FieldByName_def typeField_def getSerializedName_def
      Interface_def dynamicValue_def)
  from C3_leaf_fields [of "[''Field1'', ''Field2'']" "[?f1, ?f2]" ?fld ?wire, OF h]
  obtain m where m: "Serialize (PtrV (Some (StructV [?f1, ?f2]))) (map StrE [''Field1'', ''Field2'']) = Inr m
           \<and> dom m = ?wire ` set [''Field1'', ''Field2'']
           \<and> (\<forall>n \<in> set [''Field1'', ''Field2''].
                 (\<forall>n' \<in> set [''Field1'', ''Field2'']. ?wire n' = ?wire n \<longrightarrow> fvalue (?fld n') = fvalue (?fld n)) \<longrightarrow>
                 m (?wire n) = Some (Val (dynamicValue (fvalue (?fld n)))))" ..
  have "dom m = {''field1'', ''field2''}"
    using conjunct1 [OF conjunct2 [OF m]] by auto
  moreover have "m ''field1'' = Some (Val (StringV ''foo''))"
    using bspec [OF conjunct2 [OF conjunct2 [OF m]], of "''Field1''"]
    by (simp add: dynamicValue_def)
  moreover have "m ''field2'' = Some (Val (IntV 42))"
    using bspec [OF conjunct2 [OF conjunct2 [OF m]], of "''Field2''"]
    by (simp add: dynamicValue_def)
  ultimately show ?thesis
    using e conjunct1 [OF m] by (intro conjI exI [of _ m]) simp_all
qed

section \<open>Nested entries on a sequence\<close>

text \<open>
  C9. The claim says that a nested entry on every slice or array field of pointers to
  structs puts the sequence of the elements' results under the wire name of the field. The
  elements of a field whose name is not exported are read-only Values, and
  \<^verbatim>\<open>Value.Interface\<close> panics on the first of them: for
  \<^verbatim>\<open>struct { items []*nested `json:"items"` }\<close> with one element nothing is inserted.
\<close>

theorem C9_counterexample:
  "Serialize
     (PtrV (Some (StructV [SField ''items'' False [(''json'', ''items'')]
        (SliceV (Some [PtrV (Some (StructV [SField ''FieldNested'' True [(''json'', ''fieldNested'')] (BoolV True)]))]))])))
     [MapE [(''items'', [StrE ''FieldNested''])]] =
   Inl (ReflectPanic
     ''reflect.Value.Interface: cannot return value obtained from unexported field or method'')"
  by (simp add: Type_FieldByName_def typeField_def getSerializedName_def Interface_def
      indexList_def)

lemma sum_case_id: "(case x of Inl p \<Rightarrow> Inl p | Inr r \<Rightarrow> Inr r) = x"
  by (cases x) simp_all

lemma serializeContainer_spec:
  assumes "\<forall>i \<in> set is. Index fv i = Inr (Value False (xs ! i))"
  shows "case serializeContainer fv child is of
           Inr seq \<Rightarrow> length seq = length is \<and>
             (\<forall>j < length is. \<exists>m. Serialize (dynamicValue (xs ! (is ! j))) child = Inr m \<and>
                                   seq ! j = Obj m)
         | Inl p \<Rightarrow> (\<exists>j < length is. Serialize (dynamicValue (xs ! (is ! j))) child = Inl p)"
  using assms
proof (induction "is")
  case Nil
  show ?case by simp
next
  case (Cons i more)
  have ix: "Index fv i = Inr (Value False (xs ! i))"
    using Cons.prems by simp
  have IH: "case serializeContainer fv child more of
           Inr seq \<Rightarrow> length seq = length more \<and>
             (\<forall>j < length more. \<exists>m. Serialize (dynamicValue (xs ! (more ! j))) child = Inr m \<and>
                                   seq ! j = Obj m)
         | Inl p \<Rightarrow> (\<exists>j < length more. Serialize (dynamicValue (xs ! (more ! j))) child = Inl p)"
    using Cons.IH Cons.prems by simp
  show ?case
  proof (cases "Serialize (dynamicValue (xs ! i)) child")
    case (Inl p)
    have "serializeContainer fv child (i # more) = Inl p"
      using ix Inl by (simp add: Interface_def del: Serialize.simps)
    moreover have "\<exists>j < length (i # more). Serialize (dynamicValue (xs ! ((i # more) ! j))) child = Inl p"
      using Inl by (intro exI [of _ 0]) (simp del: Serialize.simps)
    ultimately show ?thesis by (simp del: Serialize.simps)
  next
    case (Inr r)
    show ?thesis
    proof (cases "serializeContainer fv child more")
      case (Inl p)
      then obtain j where j: "j < length more"
        "Serialize (dynamicValue (xs ! (more ! j))) child = Inl p"
        using IH by (auto simp del: Serialize.simps)
      have "serializeContainer fv child (i # more) = Inl p"
        using ix Inr Inl by (simp add: Interface_def del: Serialize.simps)
      moreover have "\<exists>j < length (i # more). Serialize (dynamicValue (xs ! ((i # more) ! j))) child = Inl p"
        using j by (intro exI [of _ "Suc j"]) (simp del: Serialize.simps)
      ultimately show ?thesis by (simp del: Serialize.simps)
    next
      case (Inr rs)
      then have rs: "length rs = length more"
        "\<forall>j < length more. \<exists>m. Serialize (dynamicValue (xs ! (more ! j))) child = Inr m \<and> rs ! j = Obj m"
        using IH by (auto simp del: Serialize.simps)
      have eq: "serializeContainer fv child (i # more) = Inr (Obj r # rs)"
        using ix \<open>Serialize (dynamicValue (xs ! i)) child = Inr r\<close> Inr
        by (simp add: Interface_def del: Serialize.simps)
      have "\<forall>j < length (i # more). \<exists>m. Serialize (dynamicValue (xs ! ((i # more) ! j))) child = Inr m
              \<and> (Obj r # rs) ! j = Obj m"
      proof (intro allI impI)
        fix j assume "j < length (i # more)"
        then show "\<exists>m. Serialize (dynamicValue (xs ! ((i # more) ! j))) child = Inr m
              \<and> (Obj r # rs) ! j = Obj m"
          using rs(2) \<open>Serialize (dynamicValue (xs ! i)) child = Inr r\<close>
          by (cases j) (simp_all del: Serialize.simps)
      qed
      then show ?thesis using eq rs(1) by (simp del: Serialize.simps)
    qed
  qed
qed

text \<open>
  C9, amended. For a pointer to a struct, a field of it that has a \<^verbatim>\<open>json\<close> tag \<open>w\<close>,
  holds a slice or an array \<open>xs\<close> and is exported or empty, and a nested entry naming the
  field with a child list, reached without a panic with the result \<open>r\<close> so far:
  \<^verbatim>\<open>Serialize\<close> stores under \<open>w\<close> a sequence of the length of \<open>xs\<close> (zero included)
  whose \<open>i\<close>-th element is the result of \<^verbatim>\<open>Serialize\<close> on the \<open>i\<close>-th element of
  \<open>xs\<close> with the child list. It panics only where \<^verbatim>\<open>Serialize\<close> panics on an element,
  with that panic.
\<close>

theorem C9_sequence_field:
  assumes "find (\<lambda>f. fname f = name) fs = Some f"
    and "map_of (ftag f) ''json'' = Some w"
    and "fvalue f = SliceV (Some xs) \<or> fvalue f = ArrayV xs \<or> (fvalue f = SliceV None \<and> xs = [])"
    and "fexported f \<or> xs = []"
    and "Serialize (PtrV (Some (StructV fs))) pre = Inr r"
  shows "case Serialize (PtrV (Some (StructV fs))) (pre @ [MapE [(name, child)]]) of
           Inr res \<Rightarrow> \<exists>seq. res = r(w \<mapsto> Seq seq) \<and> length seq = length xs \<and>
             (\<forall>i < length xs. \<exists>m. Serialize (dynamicValue (xs ! i)) child = Inr m \<and> seq ! i = Obj m)
         | Inl p \<Rightarrow> (\<exists>i < length xs. Serialize (dynamicValue (xs ! i)) child = Inl p)"
proof -
  let ?ro = "\<not> fexported f"
  let ?fv = "Value ?ro (fvalue f)"
  have T: "TypeOf (Value False (StructV fs)) = Inr (Type KStruct (map typeField fs))"
    by simp
  have n: "fname f = name"
    using assms(1) by (auto simp: find_Some_iff)
  have k: "kind_of (fvalue f) = KSlice \<or> kind_of (fvalue f) = KArray"
    using assms(3) by auto
  have len: "Len ?fv = Inr (length xs)"
    using assms(3) by auto
  have "\<forall>i \<in> set [0..<length xs]. Index ?fv i = Inr (Value False (xs ! i))"
    using assms(3,4) by (auto simp: indexList_def)
  note loop = serializeContainer_spec [OF this, of child]
  have nested: "serializeNested (Value False (StructV fs)) (Type KStruct (map typeField fs))
          [(name, child)] r = serializeArrayField ?fv w child r"
    using k
  proof
    assume "kind_of (fvalue f) = KSlice"
    then show ?thesis
      using assms(1,2) n
      by (simp add: Type_FieldByName_struct getSerializedName_def typeField_def sum_case_id
          del: serializeArrayField.simps Serialize.simps cong: sum.case_cong)
  next
    assume "kind_of (fvalue f) = KArray"
    then show ?thesis
      using assms(1,2) n
      by (simp add: Type_FieldByName_struct getSerializedName_def typeField_def sum_case_id
          del: serializeArrayField.simps Serialize.simps cong: sum.case_cong)
  qed
  have run: "Serialize (PtrV (Some (StructV fs))) (pre @ [MapE [(name, child)]]) =
          serializeArrayField ?fv w child r"
    unfolding Serialize_ptr_append [OF assms(5) T]
    by (simp add: nested sum_case_id
        del: serializeArrayField.simps Serialize.simps serializeNested.simps
        cong: sum.case_cong)
  have arr: "serializeArrayField ?fv w child r =
          (case serializeContainer ?fv child [0..<length xs] of
             Inl p \<Rightarrow> Inl p
           | Inr c \<Rightarrow> Inr (r(w \<mapsto> Seq c)))"
    by (simp add: len del: Serialize.simps)
  show ?thesis
  proof (cases "serializeContainer ?fv child [0..<length xs]")
    case (Inl p)
    then have "\<exists>j < length xs. Serialize (dynamicValue (xs ! j)) child = Inl p"
      using loop by (auto simp del: Serialize.simps)
    then show ?thesis
      unfolding run arr Inl by (simp del: Serialize.simps)
  next
    case (Inr c)
    then have "length c = length xs \<and>
        (\<forall>j < length xs. \<exists>m. Serialize (dynamicValue (xs ! j)) child = Inr m \<and> c ! j = Obj m)"
      using loop by (auto simp del: Serialize.simps)
    then have "\<exists>seq. r(w \<mapsto> Seq c) = r(w \<mapsto> Seq seq) \<and> length seq = length xs \<and>
        (\<forall>i < length xs. \<exists>m. Serialize (dynamicValue (xs ! i)) child = Inr m \<and> seq ! i = Obj m)"
      by (intro exI [of _ c]) (simp del: Serialize.simps)
    then show ?thesis
      unfolding run arr Inr by (simp del: Serialize.simps)
  qed
qed

text \<open>The witness is the input of \<^verbatim>\<open>TestSerializeFieldWithArrayOfStructs\<close>.\<close>

theorem C9_sequence_field_witness:
  "Serialize
     (PtrV (Some (StructV [SField ''Field1'' True [(''json'', ''field'')]
        (ArrayV [PtrV (Some (StructV [SField ''FieldNested'' True [(''json'', ''fieldNested'')] (BoolV True)])),
                 PtrV (Some (StructV [SField ''FieldNested'' True [(''json'', ''fieldNested'')] (BoolV False)]))])])))
     ([] @ [MapE [(''Field1'', [StrE ''FieldNested''])]]) =
   Inr [''field'' \<mapsto> Seq [Obj [''fieldNested'' \<mapsto> Val (BoolV True)],
                          Obj [''fieldNested'' \<mapsto> Val (BoolV False)]]]"
  using C9_sequence_field [of "''Field1''"
      "[SField ''Field1'' True [(''json'', ''field'')]
        (ArrayV [PtrV (Some (StructV [SField ''FieldNested'' True [(''json'', ''fieldNested'')] (BoolV True)])),
                 PtrV (Some (StructV [SField ''FieldNested'' True [(''json'', ''fieldNested'')] (BoolV False)]))])]"
      "SField ''Field1'' True [(''json'', ''field'')]
        (ArrayV [PtrV (Some (StructV [SField ''FieldNested'' True [(''json'', ''fieldNested'')] (BoolV True)])),
                 PtrV (Some (StructV [SField ''FieldNested'' True [(''json'', ''fieldNested'')] (BoolV False)]))])"
      "''field''"
      "[PtrV (Some (StructV [SField ''FieldNested'' True [(''json'', ''fieldNested'')] (BoolV True)])),
        PtrV (Some (StructV [SField ''FieldNested'' True [(''json'', ''fieldNested'')] (BoolV False)]))]"
      "[]" Map.empty "[StrE ''FieldNested'']"]
  by (simp add: Type_FieldByName_def typeField_def getSerializedName_def Interface_def
      indexList_def dynamicValue_def serializeStrField_def)

section \<open>Models that are not pointers\<close>

text \<open>
  C10. The claim says that the nil check of \<^verbatim>\<open>Serialize\<close> panics for every model that is
  not a pointer. \<^verbatim>\<open>Value.IsNil\<close> is defined for slices, maps, functions and channels too:
  a nil map is nil, and \<^verbatim>\<open>Serialize\<close> returns the empty map for it.
\<close>

theorem C10_counterexample:
  "Serialize (MapV None) [StrE ''Field1''] = Inr Map.empty"
  by simp

text \<open>
  C10, amended. For a model that is not a pointer: if its kind has no nil (a struct passed
  by value, a primitive, an array, the nil interface), the nil check of \<^verbatim>\<open>Serialize\<close>
  panics; if it is a nil slice, map, function or channel, \<^verbatim>\<open>Serialize\<close> returns the empty
  map; if it is a non-nil slice, map, function or channel, the nil check passes and the
  \<^verbatim>\<open>Elem\<close> call after it panics. In no case is the result a populated map.
\<close>

theorem C10_non_pointer_model:
  assumes "kind_of model \<noteq> KPtr" and "kind_of model \<noteq> KInterface"
  shows "Serialize model fields =
     (if kind_of model \<in> {KSlice, KMap, KFunc, KChan}
      then (if IsNil (ValueOf model) = Inr True then Inr Map.empty
            else Inl (ValueError ''reflect.Value.Elem'' (kind_of model)))
      else Inl (ValueError ''reflect.Value.IsNil'' (kind_of model)))"
  using assms by (cases model) (auto split: option.splits)

theorem C10_non_pointer_model_witness:
  "Serialize (StructV [SField ''Field1'' True [(''json'', ''field1'')] (StringV ''foo'')]) [StrE ''Field1'']
     = Inl (ValueError ''reflect.Value.IsNil'' KStruct)
   \<and> Serialize NilIface [] = Inl (ValueError ''reflect.Value.IsNil'' KInvalid)
   \<and> Serialize (SliceV (Some [])) [] = Inl (ValueError ''reflect.Value.Elem'' KSlice)"
  using C10_non_pointer_model [of "StructV [SField ''Field1'' True [(''json'', ''field1'')] (StringV ''foo'')]" "[StrE ''Field1'']"]
    C10_non_pointer_model [of NilIface "[]"]
    C10_non_pointer_model [of "SliceV (Some [])" "[]"]
  by simp

end
